theory Spec2Isabelle
  imports Complex_Main
begin

section \<open>Slicing atoms for the multislice algorithm (abtem/slicing.py)\<close>

text \<open>
  A shallow embedding of \<^verbatim>\<open>abtem/slicing.py\<close>. Python floats are modelled as
  the reals: comparisons, sums and quotients are exact, so rounding is outside the
  model. Every exception the module can raise is a value of \<open>error\<close>, and a
  function that may raise returns \<open>error + 'a\<close> with \<open>Inl\<close> for the exception.
\<close>

subsection \<open>Errors, Python sequences, numpy primitives\<close>

datatype error =
  RuntimeError | IndexError | ValueError | ZeroDivisionError
  | NotImplementedError | AssertionError

text \<open>
  Python indexing of a sequence by an integer: a negative index counts from the end,
  an index outside the sequence raises \<^verbatim>\<open>IndexError\<close>.
\<close>

definition py_index :: "'a list \<Rightarrow> int \<Rightarrow> error + 'a" where
  "py_index xs i =
     (let n = int (length xs); j = (if i < 0 then i + n else i)
      in if 0 \<le> j \<and> j < n then Inr (xs ! nat j) else Inl IndexError)"

text \<open>
  Python slicing \<^verbatim>\<open>xs[start:stop]\<close> (step 1): a missing bound is the end of
  the sequence on its side, a negative bound counts from the end, and both bounds are
  clamped to the sequence. It never raises.
\<close>

definition py_bound :: "nat \<Rightarrow> int option \<Rightarrow> int \<Rightarrow> nat" where
  "py_bound n b dflt =
     (case b of
        None \<Rightarrow> nat dflt
      | Some i \<Rightarrow> if i < 0 then nat (max (i + int n) 0) else nat (min i (int n)))"

definition py_slice :: "'a list \<Rightarrow> int option \<Rightarrow> int option \<Rightarrow> 'a list" where
  "py_slice xs start stop =
     (let n = length xs; s = py_bound n start 0; e = py_bound n stop (int n)
      in take (e - s) (drop s xs))"

text \<open>
  \<^verbatim>\<open>np.cumsum\<close> and \<^verbatim>\<open>itertools.accumulate\<close>: the running sums of a
  sequence, the latter starting from its first element.
\<close>

fun running_sum :: "real \<Rightarrow> real list \<Rightarrow> real list" where
  "running_sum acc [] = []"
| "running_sum acc (x # xs) = (acc + x) # running_sum (acc + x) xs"

definition cumsum :: "real list \<Rightarrow> real list" where
  "cumsum xs = running_sum 0 xs"

definition accumulate :: "real list \<Rightarrow> real list" where
  "accumulate xs = (case xs of [] \<Rightarrow> [] | x # rest \<Rightarrow> x # running_sum x rest)"

text \<open>
  \<^verbatim>\<open>np.isclose(a, b)\<close> with numpy's default tolerances
  \<^verbatim>\<open>rtol=1e-05\<close>, \<^verbatim>\<open>atol=1e-08\<close>: \<open>\<bar>a - b\<bar> \<le> atol + rtol * \<bar>b\<bar>\<close>.
\<close>

definition isclose :: "real \<Rightarrow> real \<Rightarrow> bool" where
  "isclose a b = (\<bar>a - b\<bar> \<le> 1 / 10 ^ 8 + \<bar>b\<bar> / 10 ^ 5)"

subsection \<open>Thickness resolution: \<^verbatim>\<open>_validate_slice_thickness\<close>\<close>

text \<open>
  The \<^verbatim>\<open>slice_thickness\<close> argument is a number (\<^verbatim>\<open>is_number\<close>) or an
  iterable of numbers. Dividing a Python float by zero raises
  \<^verbatim>\<open>ZeroDivisionError\<close>; a tuple repeated a negative number of times is empty.
\<close>

datatype thickness_spec = Number real | Sequence "real list"

definition resolve_slice_thickness ::
    "thickness_spec \<Rightarrow> real option \<Rightarrow> int option \<Rightarrow> error + real list" where
  "resolve_slice_thickness slice_thickness thickness num_slices =
     (case slice_thickness of
        Number t \<Rightarrow>
          (case thickness of
             Some h \<Rightarrow>
               if t = 0 then Inl ZeroDivisionError
               else (let n = \<lceil>h / t\<rceil>
                     in if n = 0 then Inl ZeroDivisionError
                        else Inr (replicate (nat n) (h / real_of_int n)))
           | None \<Rightarrow>
               (case num_slices of
                  Some k \<Rightarrow> Inr (replicate (nat k) t)
                | None \<Rightarrow> Inl RuntimeError))
      | Sequence ds \<Rightarrow> Inr ds)"

definition validate_slice_thickness ::
    "thickness_spec \<Rightarrow> real option \<Rightarrow> int option \<Rightarrow> error + real list" where
  "validate_slice_thickness slice_thickness thickness num_slices =
     (case resolve_slice_thickness slice_thickness thickness num_slices of
        Inl e \<Rightarrow> Inl e
      | Inr validated \<Rightarrow>
          if (case thickness of
                Some h \<Rightarrow> \<not> isclose (sum_list validated) h
              | None \<Rightarrow> False)
          then Inl RuntimeError
          else if (case num_slices of
                     Some k \<Rightarrow> int (length validated) \<noteq> k
                   | None \<Rightarrow> False)
          then Inl RuntimeError
          else Inr validated)"

subsection \<open>Slice geometry: \<^verbatim>\<open>slice_limits\<close> and \<^verbatim>\<open>_unpack_item\<close>\<close>

definition slice_limits :: "real list \<Rightarrow> (real \<times> real) list" where
  "slice_limits slice_thickness =
     (let cum_thickness = accumulate (0 # slice_thickness)
      in map (\<lambda>i. (cum_thickness ! i, cum_thickness ! (i + 1)))
           [0..<length cum_thickness - 1])"

text \<open>
  An item is an integer or a \<^verbatim>\<open>slice(start, stop, step)\<close> whose fields may be
  \<^verbatim>\<open>None\<close>; the step is never read. Anything else raises
  \<^verbatim>\<open>RuntimeError\<close>.
\<close>

datatype item = Index int | Slice "int option" "int option" "int option" | Other

definition unpack_item :: "item \<Rightarrow> int \<Rightarrow> error + int \<times> int" where
  "unpack_item item num_items =
     (case (case item of
              Index i \<Rightarrow> Inr (i, i + 1)
            | Slice start stop step \<Rightarrow>
                Inr (case start of None \<Rightarrow> 0 | Some s \<Rightarrow> s,
                     case stop of None \<Rightarrow> num_items | Some e \<Rightarrow> e)
            | Other \<Rightarrow> Inl RuntimeError) of
        Inl e \<Rightarrow> Inl e
      | Inr (first_index, last_index) \<Rightarrow>
          (let last_index = min last_index num_items
           in if first_index \<ge> last_index then Inl IndexError
              else Inr (first_index, last_index)))"

subsection \<open>The atomic structure (\<^verbatim>\<open>ase.Atoms\<close>)\<close>

text \<open>
  An ASE \<^verbatim>\<open>Atoms\<close> object as far as the module reads it: per atom an atomic
  number and a position (two index-aligned arrays of one length, kept here as one list
  of pairs), and the 3x3 cell matrix, by rows.
\<close>

type_synonym vec3 = "real \<times> real \<times> real"

record Atoms =
  atom_list :: "(int \<times> vec3) list"
  cell :: "vec3 \<times> vec3 \<times> vec3"

definition numbers :: "Atoms \<Rightarrow> int list" where
  "numbers a = map fst (atom_list a)"

definition positions :: "Atoms \<Rightarrow> vec3 list" where
  "positions a = map snd (atom_list a)"

definition z_of :: "vec3 \<Rightarrow> real" where
  "z_of p = snd (snd p)"

text \<open>\<^verbatim>\<open>atoms.positions[:, 2]\<close>.\<close>

definition positions_z :: "Atoms \<Rightarrow> real list" where
  "positions_z a = map z_of (positions a)"

text \<open>\<^verbatim>\<open>np.diag(cell)\<close>, \<^verbatim>\<open>cell[2, 2]\<close> and the assignment to it.\<close>

definition cell_diag :: "vec3 \<times> vec3 \<times> vec3 \<Rightarrow> vec3" where
  "cell_diag c = (case c of ((xx, _, _), (_, yy, _), (_, _, zz)) \<Rightarrow> (xx, yy, zz))"

definition cell_zz :: "vec3 \<times> vec3 \<times> vec3 \<Rightarrow> real" where
  "cell_zz c = z_of (cell_diag c)"

definition set_cell_zz :: "vec3 \<times> vec3 \<times> vec3 \<Rightarrow> real \<Rightarrow> vec3 \<times> vec3 \<times> vec3" where
  "set_cell_zz c v = (case c of (r0, r1, (zx, zy, _)) \<Rightarrow> (r0, r1, (zx, zy, v)))"

text \<open>Assigning three lengths to \<^verbatim>\<open>atoms.cell\<close> gives the diagonal cell.\<close>

definition diag_cell :: "vec3 \<Rightarrow> vec3 \<times> vec3 \<times> vec3" where
  "diag_cell d = (case d of (x, y, z) \<Rightarrow> ((x, 0, 0), (0, y, 0), (0, 0, z)))"

text \<open>
  Modelled from the spec: \<^verbatim>\<open>abtem.atoms.is_cell_orthogonal\<close> is not part of the
  sources at hand. The spec: the constructor fails if the box is not orthogonal
  (off-diagonal terms nonzero).
\<close>

definition is_cell_orthogonal :: "Atoms \<Rightarrow> bool" where
  "is_cell_orthogonal a =
     (case cell a of ((_, xy, xz), (yx, _, yz), (zx, zy, _)) \<Rightarrow>
        xy = 0 \<and> xz = 0 \<and> yx = 0 \<and> yz = 0 \<and> zx = 0 \<and> zy = 0)"

text \<open>
  Indexing an \<^verbatim>\<open>Atoms\<close> object: by an array of indices (an index outside the
  object raises) and by a boolean mask of the object's length. Both return a new object
  with the same cell.
\<close>

definition getitem_indices :: "Atoms \<Rightarrow> nat list \<Rightarrow> error + Atoms" where
  "getitem_indices a idx =
     (if list_all (\<lambda>j. j < length (atom_list a)) idx
      then Inr (a\<lparr>atom_list := map (\<lambda>j. atom_list a ! j) idx\<rparr>)
      else Inl IndexError)"

definition getitem_mask :: "Atoms \<Rightarrow> bool list \<Rightarrow> Atoms" where
  "getitem_mask a keep = a\<lparr>atom_list := map fst (filter snd (zip (atom_list a) keep))\<rparr>"

text \<open>\<^verbatim>\<open>atoms.positions[:, 2] -= s\<close>.\<close>

definition shift_z :: "Atoms \<Rightarrow> real \<Rightarrow> Atoms" where
  "shift_z a s = a\<lparr>atom_list := map (\<lambda>(n, (x, y, z)). (n, (x, y, z - s))) (atom_list a)\<rparr>"

subsection \<open>Plane detection: \<^verbatim>\<open>crystal_slice_thicknesses\<close>\<close>

text \<open>
  \<^verbatim>\<open>np.insert(z, [0, -1], [v0, v1])\<close> puts \<open>v0\<close> before the first element and
  \<open>v1\<close> before the last one; on an empty array the assignment of the old elements
  fails. \<^verbatim>\<open>np.diff\<close> gives the differences of consecutive elements.
\<close>

definition np_insert_ends :: "real list \<Rightarrow> real \<Rightarrow> real \<Rightarrow> error + real list" where
  "np_insert_ends z v0 v1 =
     (if z = [] then Inl ValueError else Inr (v0 # butlast z @ [v1, last z]))"

fun diff :: "real list \<Rightarrow> real list" where
  "diff (x # y # xs) = (y - x) # diff (y # xs)"
| "diff _ = []"

text \<open>
  \<^verbatim>\<open>np.unique\<close> returns the sorted distinct values. The \<^verbatim>\<open>assert\<close> is
  the last branch. With a zero tolerance numpy divides by zero without raising: every
  quotient is an infinity or NaN, and the cast to integers maps them all to one value.
  The model's \<open>v / 0 = 0\<close> likewise puts every coordinate in one bucket: there is one
  plane and no thickness, and the assertion compares 0 with the cell height.
\<close>

definition crystal_slice_thicknesses :: "Atoms \<Rightarrow> real \<Rightarrow> error + real list" where
  "crystal_slice_thicknesses atoms tolerance =
     (case np_insert_ends (positions_z atoms) 0 (cell_zz (cell atoms)) of
        Inl e \<Rightarrow> Inl e
      | Inr z \<Rightarrow>
          (let unique = map (\<lambda>k. (real_of_int k + 1 / 2) * tolerance)
                          (sort (remdups (map (\<lambda>v. \<lfloor>v / tolerance\<rfloor>) z)));
               slice_positions = sort unique;
               slice_thickness = diff slice_positions
           in if isclose (sum_list slice_thickness) (cell_zz (cell atoms))
              then Inr slice_thickness
              else Inl AssertionError))"

subsection \<open>Binning: \<^verbatim>\<open>np.digitize\<close> and \<^verbatim>\<open>label_to_index\<close>\<close>

text \<open>
  \<^verbatim>\<open>np.searchsorted(a, v, side='right')\<close> on a sorted array \<open>a\<close>: the index
  \<open>i\<close> with \<open>a[i-1] \<le> v < a[i]\<close>, which is the number of entries that are at
  most \<open>v\<close>.
\<close>

definition searchsorted_right :: "real list \<Rightarrow> real \<Rightarrow> nat" where
  "searchsorted_right a v = length (filter (\<lambda>b. b \<le> v) a)"

text \<open>
  \<^verbatim>\<open>np.digitize(x, bins)\<close> with \<^verbatim>\<open>right=False\<close>: the bins must be monotonic
  (1 for non-decreasing, also when all are equal or there is none; -1 for
  non-increasing; 0 otherwise, which raises). Decreasing bins are reversed and the
  result inverted.
\<close>

definition monotonicity :: "real list \<Rightarrow> int" where
  "monotonicity bins = (if sorted bins then 1 else if sorted (rev bins) then - 1 else 0)"

definition digitize :: "real list \<Rightarrow> real list \<Rightarrow> error + nat list" where
  "digitize x bins =
     (let mono = monotonicity bins
      in if mono = 0 then Inl ValueError
         else if mono = - 1
         then Inr (map (\<lambda>v. length bins - searchsorted_right (rev bins) v) x)
         else Inr (map (searchsorted_right bins) x))"

text \<open>
  Modelled from the spec: \<^verbatim>\<open>abtem.core.utils.label_to_index\<close> is not part of the
  sources at hand. The spec: binning produces a partition of the atom indices into
  exactly \<open>num_slabs\<close> buckets (empty buckets allowed), a mapping from slab index to
  the atom indices with that label; an atom whose label is beyond the last bucket is
  dropped. Called with \<^verbatim>\<open>max_label = len(self) - 1\<close>, it yields one bucket for
  each label from 0 to \<open>max_label\<close>.
\<close>

definition label_to_index :: "nat list \<Rightarrow> int \<Rightarrow> nat list list" where
  "label_to_index labels max_label =
     map (\<lambda>l. filter (\<lambda>j. labels ! j = l) [0..<length labels]) [0..<nat (max_label + 1)]"

subsection \<open>\<^verbatim>\<open>BaseSlicedAtoms\<close>\<close>

record BaseSlicedAtoms =
  atoms :: Atoms
  slice_thickness :: "real list"

text \<open>The constructor's thickness argument: a number, a sequence, or a string.\<close>

datatype thickness_arg = Given thickness_spec | Named string

definition BaseSlicedAtoms_init :: "Atoms \<Rightarrow> thickness_arg \<Rightarrow> error + BaseSlicedAtoms" where
  "BaseSlicedAtoms_init a arg =
     (if \<not> is_cell_orthogonal a then Inl RuntimeError
      else (case arg of
              Named s \<Rightarrow> Inl NotImplementedError
            | Given spec \<Rightarrow>
                (case validate_slice_thickness spec (Some (cell_zz (cell a))) None of
                   Inl e \<Rightarrow> Inl e
                 | Inr validated \<Rightarrow> Inr \<lparr>atoms = a, slice_thickness = validated\<rparr>)))"

definition box :: "'a BaseSlicedAtoms_scheme \<Rightarrow> vec3" where
  "box self = cell_diag (cell (atoms self))"

definition num_slices :: "'a BaseSlicedAtoms_scheme \<Rightarrow> nat" where
  "num_slices self = length (slice_thickness self)"

definition check_slice_idx :: "'a BaseSlicedAtoms_scheme \<Rightarrow> int \<Rightarrow> error + unit" where
  "check_slice_idx self index =
     (if index \<ge> int (num_slices self) then Inl RuntimeError else Inr ())"

subsection \<open>\<^verbatim>\<open>SliceIndexedAtoms\<close>: each atom in one slice\<close>

record SliceIndexedAtoms = BaseSlicedAtoms +
  slice_index :: "nat list list"

definition SliceIndexedAtoms_init ::
    "Atoms \<Rightarrow> thickness_arg \<Rightarrow> error + SliceIndexedAtoms" where
  "SliceIndexedAtoms_init a arg =
     (case BaseSlicedAtoms_init a arg of
        Inl e \<Rightarrow> Inl e
      | Inr base \<Rightarrow>
          (case digitize (positions_z (atoms base)) (cumsum (slice_thickness base)) of
             Inl e \<Rightarrow> Inl e
           | Inr labels \<Rightarrow>
               Inr \<lparr>atoms = atoms base, slice_thickness = slice_thickness base,
                    slice_index = label_to_index labels (int (num_slices base) - 1)\<rparr>))"

text \<open>
  The local \<^verbatim>\<open>in_slice\<close> of \<^verbatim>\<open>get_atoms_in_slices\<close>: the source indices of
  the atoms of the queried slices. \<^verbatim>\<open>np.concatenate\<close> of no arrays raises.
\<close>

definition in_slice :: "SliceIndexedAtoms \<Rightarrow> int \<Rightarrow> int \<Rightarrow> error + nat list" where
  "in_slice self first_slice last_slice =
     (if last_slice - first_slice < 2 then py_index (slice_index self) first_slice
      else (case py_slice (slice_index self) (Some first_slice) (Some last_slice) of
              [] \<Rightarrow> Inl ValueError
            | b # bs \<Rightarrow> Inr (concat (b # bs))))"

definition SliceIndexedAtoms_get_atoms_in_slices ::
    "SliceIndexedAtoms \<Rightarrow> int \<Rightarrow> int option \<Rightarrow> int option \<Rightarrow> error + Atoms" where
  "SliceIndexedAtoms_get_atoms_in_slices self first_slice last_slice_arg atomic_number =
     (let last_slice = (case last_slice_arg of None \<Rightarrow> first_slice | Some l \<Rightarrow> l)
      in case in_slice self first_slice last_slice of
           Inl e \<Rightarrow> Inl e
         | Inr idx \<Rightarrow>
             (case getitem_indices (atoms self) idx of
                Inl e \<Rightarrow> Inl e
              | Inr selected \<Rightarrow>
                  (let filtered =
                         (case atomic_number of
                            None \<Rightarrow> selected
                          | Some an \<Rightarrow>
                              getitem_mask selected (map (\<lambda>n. n = an) (numbers selected)));
                       thickness =
                         py_slice (slice_thickness self) (Some first_slice) (Some last_slice);
                       resized =
                         filtered\<lparr>cell := set_cell_zz (cell filtered) (sum_list thickness)\<rparr>
                   in Inr (shift_z resized
                        (sum_list (py_slice (slice_thickness self) None (Some first_slice)))))))"

subsection \<open>\<^verbatim>\<open>SlicedAtoms\<close>: membership by coordinate interval\<close>

record SlicedAtoms = BaseSlicedAtoms +
  xy_padding :: real
  z_padding :: real

definition SlicedAtoms_init ::
    "Atoms \<Rightarrow> thickness_arg \<Rightarrow> real \<Rightarrow> real \<Rightarrow> error + SlicedAtoms" where
  "SlicedAtoms_init a arg xy_pad z_pad =
     (case BaseSlicedAtoms_init a arg of
        Inl e \<Rightarrow> Inl e
      | Inr base \<Rightarrow>
          Inr \<lparr>atoms = atoms base, slice_thickness = slice_thickness base,
               xy_padding = xy_pad, z_padding = z_pad\<rparr>)"

definition SlicedAtoms_get_atoms_in_slices ::
    "SlicedAtoms \<Rightarrow> int \<Rightarrow> int option \<Rightarrow> int option \<Rightarrow> error + Atoms" where
  "SlicedAtoms_get_atoms_in_slices self first_slice last_slice_arg atomic_number =
     (let last_slice = (case last_slice_arg of None \<Rightarrow> first_slice | Some l \<Rightarrow> l)
      in case py_index (slice_limits (slice_thickness self)) first_slice of
           Inl e \<Rightarrow> Inl e
         | Inr (a, a_exit) \<Rightarrow>
             (case py_index (slice_limits (slice_thickness self)) last_slice of
                Inl e \<Rightarrow> Inl e
              | Inr (b_entry, b) \<Rightarrow>
                  (let in_range =
                         map (\<lambda>z. z \<ge> a - z_padding self \<and> z < b + z_padding self)
                           (positions_z (atoms self));
                       keep =
                         (case atomic_number of
                            None \<Rightarrow> in_range
                          | Some an \<Rightarrow>
                              map2 (\<and>) (map (\<lambda>n. n = an) (numbers (atoms self))) in_range);
                       selected = getitem_mask (atoms self) keep
                   in Inr (selected\<lparr>cell :=
                        diag_cell (case cell_diag (cell selected) of
                                     (x, y, _) \<Rightarrow> (x, y, b - a))\<rparr>))))"

section \<open>Properties\<close>

subsection \<open>Running sums and the boundary table\<close>

lemma length_running_sum: "length (running_sum acc xs) = length xs"
  by (induction xs arbitrary: acc) simp_all

lemma running_sum_nth:
  "i < length xs \<Longrightarrow> running_sum acc xs ! i = acc + sum_list (take (Suc i) xs)"
proof (induction xs arbitrary: acc i)
  case Nil
  then show ?case by simp
next
  case (Cons x xs)
  show ?case
  proof (cases i)
    case 0
    then show ?thesis by simp
  next
    case (Suc k)
    with Cons.prems have "k < length xs" by simp
    from Cons.IH [OF this, of "acc + x"] Suc show ?thesis by simp
  qed
qed

lemma accumulate_zero_nth:
  "i \<le> length ts \<Longrightarrow> accumulate (0 # ts) ! i = sum_list (take i ts)"
  by (cases i) (simp_all add: accumulate_def running_sum_nth)

lemma length_slice_limits: "length (slice_limits ts) = length ts"
  by (simp add: slice_limits_def accumulate_def length_running_sum)

lemma slice_limits_nth:
  assumes "i < length ts"
  shows "slice_limits ts ! i = (sum_list (take i ts), sum_list (take (Suc i) ts))"
proof -
  have len: "length (accumulate (0 # ts)) - Suc 0 = length ts"
    by (simp add: accumulate_def length_running_sum)
  have "slice_limits ts ! i = (accumulate (0 # ts) ! i, accumulate (0 # ts) ! (i + 1))"
    using assms by (simp add: slice_limits_def Let_def len)
  also have "\<dots> = (sum_list (take i ts), sum_list (take (Suc i) ts))"
    using assms by (simp add: accumulate_zero_nth)
  finally show ?thesis .
qed

text \<open>
  C6. The boundary table derived from a thickness sequence of \<open>N\<close> entries has \<open>N\<close>
  (entry, exit) pairs; the first entry is 0, each exit is the next slab's entry, and the
  last exit is the sum of the thicknesses. For thicknesses 2, 3, 5 it is
  (0,2), (2,5), (5,10).
\<close>

theorem slice_limits_contiguous:
  "length (slice_limits ts) = length ts
   \<and> (ts \<noteq> [] \<longrightarrow> fst (slice_limits ts ! 0) = 0
                  \<and> snd (slice_limits ts ! (length ts - 1)) = sum_list ts)
   \<and> (\<forall>i. i + 1 < length ts \<longrightarrow>
          snd (slice_limits ts ! i) = fst (slice_limits ts ! (i + 1)))
   \<and> slice_limits [2, 3, 5] = [(0, 2), (2, 5), (5, 10)]"
proof (intro conjI allI impI)
  show "length (slice_limits ts) = length ts"
    by (rule length_slice_limits)
next
  assume "ts \<noteq> []"
  then show "fst (slice_limits ts ! 0) = 0"
    by (simp add: slice_limits_nth)
next
  assume "ts \<noteq> []"
  then have "length ts - 1 < length ts" by simp
  from slice_limits_nth [OF this] \<open>ts \<noteq> []\<close>
  show "snd (slice_limits ts ! (length ts - 1)) = sum_list ts" by simp
next
  fix i assume "i + 1 < length ts"
  then show "snd (slice_limits ts ! i) = fst (slice_limits ts ! (i + 1))"
    by (simp add: slice_limits_nth)
next
  show "slice_limits [2, 3, 5] = [(0, 2), (2, 5), (5, 10)]"
    by (simp add: slice_limits_def accumulate_def upt_rec)
qed

theorem slice_limits_contiguous_witness:
  "length (slice_limits [2, 2, 2, 2]) = length [2, 2, 2, 2 :: real]
   \<and> [2, 2, 2, 2 :: real] \<noteq> []
   \<and> fst (slice_limits [2, 2, 2, 2] ! 0) = 0
   \<and> snd (slice_limits [2, 2, 2, 2] ! (length [2, 2, 2, 2 :: real] - 1)) = 8
   \<and> (1 :: nat) + 1 < length [2, 2, 2, 2 :: real]
   \<and> snd (slice_limits [2, 2, 2, 2] ! 1) = fst (slice_limits [2, 2, 2, 2] ! (1 + 1))"
proof -
  note c = slice_limits_contiguous [of "[2, 2, 2, 2]"]
  have ne: "[2, 2, 2, 2 :: real] \<noteq> []" by simp
  have lt: "(1 :: nat) + 1 < length [2, 2, 2, 2 :: real]" by simp
  from c have adj: "\<forall>i. i + 1 < length [2, 2, 2, 2 :: real] \<longrightarrow>
      snd (slice_limits [2, 2, 2, 2] ! i) = fst (slice_limits [2, 2, 2, 2] ! (i + 1))"
    by blast
  from adj lt have "snd (slice_limits [2, 2, 2, 2] ! 1) = fst (slice_limits [2, 2, 2, 2] ! (1 + 1))"
    by blast
  moreover from c ne have "fst (slice_limits [2, 2, 2, 2] ! 0) = 0"
    and "snd (slice_limits [2, 2, 2, 2] ! (length [2, 2, 2, 2 :: real] - 1))
           = sum_list [2, 2, 2, 2]"
    by blast+
  moreover from c have "length (slice_limits [2, 2, 2, 2]) = length [2, 2, 2, 2 :: real]"
    by blast
  ultimately show ?thesis using ne lt by simp
qed

subsection \<open>Item to range resolution\<close>

text \<open>
  C10. An integer item \<open>i\<close> resolves to first \<open>i\<close> and last \<open>i + 1\<close>; a slice
  resolves its start to 0 and its stop to \<open>num_items\<close> when they are missing; the
  last index is then clamped to \<open>num_items\<close>. The function raises
  \<^verbatim>\<open>IndexError\<close> exactly when, after clamping, first \<open>\<ge>\<close> last, and otherwise
  returns the first index and the clamped last index.
\<close>

theorem unpack_item_resolution:
  "(unpack_item (Index i) n = Inl IndexError \<longleftrightarrow> i \<ge> min (i + 1) n)
   \<and> (i < min (i + 1) n \<longrightarrow> unpack_item (Index i) n = Inr (i, i + 1))
   \<and> (let first_index = (case start of None \<Rightarrow> 0 | Some s \<Rightarrow> s);
           last_index = min (case stop of None \<Rightarrow> n | Some e \<Rightarrow> e) n
       in (unpack_item (Slice start stop step) n = Inl IndexError
             \<longleftrightarrow> first_index \<ge> last_index)
          \<and> (first_index < last_index \<longrightarrow>
                unpack_item (Slice start stop step) n = Inr (first_index, last_index))
          \<and> last_index \<le> n)"
proof -
  have index: "unpack_item (Index i) n
               = (if i \<ge> min (i + 1) n then Inl IndexError else Inr (i, min (i + 1) n))"
    by (simp add: unpack_item_def Let_def)
  have slice: "unpack_item (Slice start stop step) n
               = (if first_index \<ge> min last_index n then Inl IndexError
                  else Inr (first_index, min last_index n))"
    if "first_index = (case start of None \<Rightarrow> 0 | Some s \<Rightarrow> s)"
      and "last_index = (case stop of None \<Rightarrow> n | Some e \<Rightarrow> e)"
    for first_index last_index
    using that by (simp add: unpack_item_def Let_def)
  have unclamped: "min (i + 1) n = i + 1" if "i < min (i + 1) n"
    using that by linarith
  from index unclamped have "(unpack_item (Index i) n = Inl IndexError \<longleftrightarrow> i \<ge> min (i + 1) n)
      \<and> (i < min (i + 1) n \<longrightarrow> unpack_item (Index i) n = Inr (i, i + 1))"
    by (simp split: if_splits)
  moreover from slice [OF refl refl]
  have "(let first_index = (case start of None \<Rightarrow> 0 | Some s \<Rightarrow> s);
             last_index = min (case stop of None \<Rightarrow> n | Some e \<Rightarrow> e) n
         in (unpack_item (Slice start stop step) n = Inl IndexError
               \<longleftrightarrow> first_index \<ge> last_index)
            \<and> (first_index < last_index \<longrightarrow>
                  unpack_item (Slice start stop step) n = Inr (first_index, last_index))
            \<and> last_index \<le> n)"
    by (auto simp: Let_def)
  ultimately show ?thesis by blast
qed

theorem unpack_item_resolution_witness:
  "unpack_item (Index 2) 4 = Inr (2, 3)
   \<and> unpack_item (Index 4) 4 = Inl IndexError
   \<and> unpack_item (Slice None None None) 4 = Inr (0, 4)
   \<and> unpack_item (Slice (Some 1) (Some 9) None) 4 = Inr (1, 4)
   \<and> unpack_item (Slice (Some 3) (Some 2) None) 4 = Inl IndexError"
  using unpack_item_resolution [of 2 4 None None None]
    unpack_item_resolution [of 4 4 "Some 1" "Some 9" None]
    unpack_item_resolution [of 4 4 "Some 3" "Some 2" None]
  by (simp add: Let_def)

subsection \<open>Resolution of a single thickness value\<close>

text \<open>
  C5. For a single positive thickness \<open>t\<close> and a positive total height \<open>h\<close>,
  resolution succeeds with \<open>n = \<lceil>h / t\<rceil>\<close> slabs, each of thickness \<open>h / n\<close>, and
  the sequence sums to \<open>h\<close>; thickness 3 with height 10 gives four slabs of 2.5 that
  sum to 10.
\<close>

theorem single_value_resolution:
  assumes "0 < t" and "0 < h"
  shows "validate_slice_thickness (Number t) (Some h) None
           = Inr (replicate (nat \<lceil>h / t\<rceil>) (h / real_of_int \<lceil>h / t\<rceil>))
         \<and> sum_list (replicate (nat \<lceil>h / t\<rceil>) (h / real_of_int \<lceil>h / t\<rceil>)) = h
         \<and> validate_slice_thickness (Number 3) (Some 10) None
             = Inr [5 / 2, 5 / 2, 5 / 2, 5 / 2]
         \<and> sum_list [5 / 2, 5 / 2, 5 / 2, 5 / 2 :: real] = 10"
proof -
  let ?n = "\<lceil>h / t\<rceil>"
  from assms have "0 < h / t" by simp
  then have pos: "0 < ?n" by simp
  from pos have nz: "?n \<noteq> 0" by linarith
  then have ne: "real_of_int ?n \<noteq> 0" by (simp only: of_int_eq_0_iff not_False_eq_True)
  from pos have "0 \<le> ?n" by linarith
  then have cast: "real (nat ?n) = real_of_int ?n" by (rule of_nat_nat)
  have "sum_list (replicate (nat ?n) (h / real_of_int ?n)) = real (nat ?n) * (h / real_of_int ?n)"
    by (simp add: sum_list_replicate)
  also have "\<dots> = h"
    unfolding cast using ne by simp
  finally have sum: "sum_list (replicate (nat ?n) (h / real_of_int ?n)) = h" .
  have "validate_slice_thickness (Number t) (Some h) None
           = Inr (replicate (nat ?n) (h / real_of_int ?n))"
    using assms nz sum
    by (simp add: validate_slice_thickness_def resolve_slice_thickness_def Let_def isclose_def)
  moreover have "validate_slice_thickness (Number 3) (Some 10) None
                   = Inr [5 / 2, 5 / 2, 5 / 2, 5 / 2]"
    by (simp add: validate_slice_thickness_def resolve_slice_thickness_def Let_def isclose_def
          eval_nat_numeral)
  ultimately show ?thesis using sum by simp
qed

theorem single_value_resolution_witness:
  "(0::real) < 3 \<and> (0::real) < 10
   \<and> validate_slice_thickness (Number 3) (Some 10) None = Inr (replicate 4 (10 / 4))"
  using single_value_resolution [of 3 10] by simp

subsection \<open>Evaluating the model on concrete structures\<close>

lemmas atoms_defs = positions_z_def positions_def z_of_def cell_zz_def cell_diag_def
  numbers_def set_cell_zz_def diag_cell_def is_cell_orthogonal_def

lemmas init_defs = SliceIndexedAtoms_init_def BaseSlicedAtoms_init_def
  validate_slice_thickness_def resolve_slice_thickness_def isclose_def atoms_defs
  digitize_def monotonicity_def cumsum_def searchsorted_right_def label_to_index_def
  num_slices_def upt_rec Let_def

subsection \<open>Cumulative boundaries and binning\<close>

lemma length_cumsum: "length (cumsum ts) = length ts"
  by (simp add: cumsum_def length_running_sum)

lemma cumsum_nth: "i < length ts \<Longrightarrow> cumsum ts ! i = sum_list (take (Suc i) ts)"
  by (simp add: cumsum_def running_sum_nth)

lemma sum_list_pos_nonempty:
  "\<forall>x\<in>set xs. (0::real) < x \<Longrightarrow> xs \<noteq> [] \<Longrightarrow> 0 < sum_list xs"
proof (induction xs)
  case Nil
  then show ?case by simp
next
  case (Cons x xs)
  then have "0 < x" and "0 \<le> sum_list xs"
    by (simp_all add: sum_list_nonneg less_imp_le)
  then show ?case by simp
qed

lemma sum_take_strict_mono:
  assumes pos: "\<forall>t\<in>set ts. (0::real) < t" and "i < k" and "k \<le> length ts"
  shows "sum_list (take i ts) < sum_list (take k ts)"
proof -
  let ?rest = "take (k - i) (drop i ts)"
  from assms have k: "k = i + (k - i)" by simp
  have "take k ts = take i ts @ ?rest"
    by (subst k) (rule take_add)
  moreover have "0 < sum_list ?rest"
  proof (rule sum_list_pos_nonempty)
    show "\<forall>x\<in>set ?rest. 0 < x"
      using pos by (meson in_set_dropD in_set_takeD)
    show "?rest \<noteq> []" using assms by simp
  qed
  ultimately show ?thesis by simp
qed

lemma cumsum_strict:
  assumes "\<forall>t\<in>set ts. (0::real) < t" and "i < k" and "k < length ts"
  shows "cumsum ts ! i < cumsum ts ! k"
  using assms by (simp add: cumsum_nth sum_take_strict_mono)

lemma sorted_cumsum:
  assumes "\<forall>t\<in>set ts. (0::real) < t"
  shows "sorted (cumsum ts)"
  unfolding sorted_iff_nth_mono_less
  using cumsum_strict [OF assms] by (auto simp: length_cumsum less_imp_le)

lemma searchsorted_right_eqI:
  assumes srt: "sorted a" and m: "m \<le> length a"
    and below: "\<And>i. i < m \<Longrightarrow> a ! i \<le> v"
    and above: "m < length a \<Longrightarrow> v < a ! m"
  shows "searchsorted_right a v = m"
proof -
  have "\<forall>b\<in>set (take m a). b \<le> v"
    using below m by (auto simp: in_set_conv_nth)
  then have lo: "filter (\<lambda>b. b \<le> v) (take m a) = take m a"
    by (simp add: filter_id_conv)
  have "\<forall>b\<in>set (drop m a). \<not> b \<le> v"
  proof
    fix b assume "b \<in> set (drop m a)"
    then obtain i where i: "i < length a - m" and b: "b = a ! (m + i)"
      by (auto simp: in_set_conv_nth)
    then have lt: "m < length a" by simp
    have "a ! m \<le> a ! (m + i)"
      using srt i by (simp add: sorted_iff_nth_mono)
    with above [OF lt] b show "\<not> b \<le> v" by simp
  qed
  then have hi: "filter (\<lambda>b. b \<le> v) (drop m a) = []"
    by (simp add: filter_empty_conv)
  have "filter (\<lambda>b. b \<le> v) a = filter (\<lambda>b. b \<le> v) (take m a @ drop m a)"
    by simp
  also have "\<dots> = take m a"
    unfolding filter_append lo hi by simp
  finally show ?thesis
    using m by (simp add: searchsorted_right_def)
qed

lemma searchsorted_right_le: "searchsorted_right a v \<le> length a"
  by (simp add: searchsorted_right_def)

lemma searchsorted_right_below_top:
  assumes "a \<noteq> []" and "v < last a"
  shows "searchsorted_right a v < length a"
proof -
  from assms have "last a \<in> set a" and "\<not> last a \<le> v" by simp_all
  then show ?thesis
    unfolding searchsorted_right_def by (rule length_filter_less)
qed

lemma searchsorted_right_at_top:
  assumes "sorted a" and "a \<noteq> []" and "last a \<le> v"
  shows "searchsorted_right a v = length a"
proof -
  have "\<forall>b\<in>set a. b \<le> v"
  proof
    fix b assume "b \<in> set a"
    then obtain i where "i < length a" and "b = a ! i" by (auto simp: in_set_conv_nth)
    with assms(1,2) have "b \<le> last a"
      by (simp add: last_conv_nth sorted_iff_nth_mono)
    with assms(3) show "b \<le> v" by simp
  qed
  then show ?thesis by (simp add: searchsorted_right_def filter_id_conv)
qed

lemma cumsum_eq_Nil: "cumsum ts = [] \<longleftrightarrow> ts = []"
  using length_cumsum [of ts] by (metis length_0_conv)

lemma last_cumsum:
  assumes "ts \<noteq> []"
  shows "last (cumsum ts) = sum_list ts"
proof -
  from assms have "length ts - 1 < length ts" by simp
  from cumsum_nth [OF this] assms show ?thesis
    by (simp add: last_conv_nth cumsum_eq_Nil length_cumsum)
qed

lemma digitize_sorted:
  "sorted bins \<Longrightarrow> digitize x bins = Inr (map (searchsorted_right bins) x)"
  by (simp add: digitize_def monotonicity_def)

lemma length_label_to_index: "length (label_to_index labels ml) = nat (ml + 1)"
  by (simp add: label_to_index_def)

lemma set_label_to_index_nth:
  "l < nat (ml + 1) \<Longrightarrow>
     set (label_to_index labels ml ! l) = {j. j < length labels \<and> labels ! j = l}"
  by (auto simp: label_to_index_def)

lemma distinct_label_to_index_nth:
  "l < nat (ml + 1) \<Longrightarrow> distinct (label_to_index labels ml ! l)"
  by (simp add: label_to_index_def)

lemma SliceIndexedAtoms_init_Inr:
  assumes "SliceIndexedAtoms_init a arg = Inr self"
  shows "atoms self = a"
    and "\<exists>spec. arg = Given spec
          \<and> validate_slice_thickness spec (Some (cell_zz (cell a))) None
              = Inr (slice_thickness self)"
    and "\<exists>labels. digitize (positions_z a) (cumsum (slice_thickness self)) = Inr labels
          \<and> slice_index self = label_to_index labels (int (num_slices self) - 1)"
  using assms
  by (auto simp: SliceIndexedAtoms_init_def BaseSlicedAtoms_init_def num_slices_def
        split: sum.splits if_splits thickness_arg.splits)

lemma length_positions_z: "length (positions_z a) = length (atom_list a)"
  by (simp add: positions_z_def positions_def)

lemma init_slice_index_length:
  assumes "SliceIndexedAtoms_init a arg = Inr self"
  shows "length (slice_index self) = num_slices self"
  using SliceIndexedAtoms_init_Inr(3) [OF assms] by (auto simp: length_label_to_index)

lemma bucket_membership:
  assumes init: "SliceIndexedAtoms_init a arg = Inr self"
    and srt: "sorted (cumsum (slice_thickness self))"
    and l: "l < num_slices self"
  shows "set (slice_index self ! l)
         = {j. j < length (atom_list a)
               \<and> searchsorted_right (cumsum (slice_thickness self)) (positions_z a ! j) = l}"
proof -
  from SliceIndexedAtoms_init_Inr(3) [OF init] digitize_sorted [OF srt]
  have idx: "slice_index self
      = label_to_index (map (searchsorted_right (cumsum (slice_thickness self))) (positions_z a))
          (int (num_slices self) - 1)"
    by auto
  from l have "l < nat (int (num_slices self) - 1 + 1)" by simp
  from set_label_to_index_nth [OF this] show ?thesis
    unfolding idx by (auto simp: length_positions_z)
qed

lemma slice_limits_exit_cumsum:
  "k < length ts \<Longrightarrow> snd (slice_limits ts ! k) = cumsum ts ! k"
  by (simp add: slice_limits_nth cumsum_nth)


lemma validate_slice_thickness_isclose:
  assumes "validate_slice_thickness spec (Some h) ns = Inr v"
  shows "isclose (sum_list v) h"
proof (cases "resolve_slice_thickness spec (Some h) ns")
  case (Inl e)
  with assms show ?thesis by (simp add: validate_slice_thickness_def)
next
  case (Inr w)
  with assms show ?thesis
    by (simp add: validate_slice_thickness_def split: if_splits)
qed


subsection \<open>The right-open binning rule\<close>

text \<open>
  C1. In a \<open>SliceIndexedAtoms\<close> built from positive thicknesses, an atom whose
  z-coordinate equals an interior slab boundary (the exit of slab \<open>k\<close>, which is the
  entry of slab \<open>k + 1\<close>) is in the bucket of slab \<open>k + 1\<close>, the slab that begins
  there, and in no other bucket; in particular not in the bucket of slab \<open>k\<close>.
\<close>

theorem boundary_atom_right_open:
  assumes init: "SliceIndexedAtoms_init a arg = Inr self"
    and pos: "\<forall>t\<in>set (slice_thickness self). 0 < t"
    and k: "k + 1 < num_slices self"
    and j: "j < length (atom_list a)"
    and z: "positions_z a ! j = snd (slice_limits (slice_thickness self) ! k)"
  shows "fst (slice_limits (slice_thickness self) ! (k + 1)) = positions_z a ! j
         \<and> j \<in> set (slice_index self ! (k + 1))
         \<and> j \<notin> set (slice_index self ! k)
         \<and> (\<forall>l<num_slices self. j \<in> set (slice_index self ! l) \<longrightarrow> l = k + 1)"
proof -
  let ?ts = "slice_thickness self"
  let ?bins = "cumsum ?ts"
  from k have kN: "k < length ?ts" and k1N: "k + 1 < length ?ts"
    by (simp_all add: num_slices_def)
  have srt: "sorted ?bins" by (rule sorted_cumsum [OF pos])
  have zk: "positions_z a ! j = ?bins ! k"
    using z kN by (simp add: slice_limits_exit_cumsum)
  have label: "searchsorted_right ?bins (positions_z a ! j) = k + 1"
  proof (rule searchsorted_right_eqI [OF srt])
    show "k + 1 \<le> length ?bins" using k1N by (simp add: length_cumsum)
  next
    fix i assume "i < k + 1"
    then have "i \<le> k" by simp
    with srt kN show "?bins ! i \<le> positions_z a ! j"
      unfolding zk by (simp add: sorted_iff_nth_mono length_cumsum)
  next
    assume "k + 1 < length ?bins"
    from cumsum_strict [OF pos, of k "k + 1"] k1N
    show "positions_z a ! j < ?bins ! (k + 1)" unfolding zk by simp
  qed
  have mem: "j \<in> set (slice_index self ! l) \<longleftrightarrow> l = k + 1" if "l < num_slices self" for l
    using bucket_membership [OF init srt that] j label by auto
  have "fst (slice_limits ?ts ! (k + 1)) = snd (slice_limits ?ts ! k)"
    using kN k1N by (simp add: slice_limits_nth)
  with z mem [OF k] mem [of k] k show ?thesis
    using mem by auto
qed


text \<open>
  The scenario of C1: box height 10, thicknesses 2, 3, 5, one atom at \<open>z = 2\<close>. The
  atom is in the bucket of slab 1 and not in the bucket of slab 0.
\<close>

theorem boundary_atom_right_open_witness:
  "SliceIndexedAtoms_init
     \<lparr>atom_list = [(6, (0, 0, 2))], cell = ((1, 0, 0), (0, 1, 0), (0, 0, 10))\<rparr>
     (Given (Sequence [2, 3, 5]))
   = Inr \<lparr>atoms = \<lparr>atom_list = [(6, (0, 0, 2))], cell = ((1, 0, 0), (0, 1, 0), (0, 0, 10))\<rparr>,
          slice_thickness = [2, 3, 5], slice_index = [[], [0], []]\<rparr>
   \<and> slice_limits [2, 3, 5] ! 0 = (0, 2)
   \<and> 0 \<in> set (slice_index
         \<lparr>atoms = \<lparr>atom_list = [(6, (0, 0, 2))], cell = ((1, 0, 0), (0, 1, 0), (0, 0, 10))\<rparr>,
          slice_thickness = [2, 3, 5], slice_index = [[], [0], []]\<rparr> ! (0 + 1))
   \<and> 0 \<notin> set (slice_index
         \<lparr>atoms = \<lparr>atom_list = [(6, (0, 0, 2))], cell = ((1, 0, 0), (0, 1, 0), (0, 0, 10))\<rparr>,
          slice_thickness = [2, 3, 5], slice_index = [[], [0], []]\<rparr> ! 0)"
proof -
  let ?a = "\<lparr>atom_list = [(6, (0, 0, 2))], cell = ((1, 0, 0), (0, 1, 0), (0, 0, 10))\<rparr>"
  let ?self = "\<lparr>atoms = ?a, slice_thickness = [2, 3, 5], slice_index = [[], [0], []]\<rparr>"
  have init: "SliceIndexedAtoms_init ?a (Given (Sequence [2, 3, 5])) = Inr ?self"
    by (simp add: init_defs)
  have pos: "\<forall>t\<in>set (slice_thickness ?self). 0 < t" by simp
  have k: "0 + 1 < num_slices ?self" by (simp add: num_slices_def)
  have j: "0 < length (atom_list ?a)" by simp
  have lim: "slice_limits [2, 3, 5] ! 0 = (0, 2)"
    by (simp add: slice_limits_def accumulate_def upt_rec)
  have z: "positions_z ?a ! 0 = snd (slice_limits (slice_thickness ?self) ! 0)"
    by (simp add: lim atoms_defs)
  from boundary_atom_right_open [OF init pos k j z] init lim show ?thesis by blast
qed

subsection \<open>The buckets as a partition\<close>

text \<open>
  C3, as stated, fails: binning is against the cumulative sums of the thicknesses, and
  construction only requires their total to be close to the box height. With box
  height 10 and thicknesses 2, 3, 5.00001 an atom at \<open>z = 10\<close>, exactly the box
  height, is in the bucket of slab 2; with thicknesses 2, 3, 4.99999 an atom at
  \<open>z = 9.999995\<close>, strictly inside the box, is in no bucket. And with thicknesses
  2, 3, 5 an atom at \<open>z = 11\<close>, above the box and not at its height, is in no
  bucket either, so the union of the buckets is not the index set minus the atoms at
  the box height.
\<close>

theorem top_boundary_drop_counterexample:
  "SliceIndexedAtoms_init
     \<lparr>atom_list = [(6, (0, 0, 10))], cell = ((1, 0, 0), (0, 1, 0), (0, 0, 10))\<rparr>
     (Given (Sequence [2, 3, 500001 / 100000]))
   = Inr \<lparr>atoms = \<lparr>atom_list = [(6, (0, 0, 10))],
                   cell = ((1, 0, 0), (0, 1, 0), (0, 0, 10))\<rparr>,
          slice_thickness = [2, 3, 500001 / 100000], slice_index = [[], [], [0]]\<rparr>
   \<and> SliceIndexedAtoms_init
     \<lparr>atom_list = [(6, (0, 0, 9999995 / 1000000))], cell = ((1, 0, 0), (0, 1, 0), (0, 0, 10))\<rparr>
     (Given (Sequence [2, 3, 499999 / 100000]))
   = Inr \<lparr>atoms = \<lparr>atom_list = [(6, (0, 0, 9999995 / 1000000))],
                   cell = ((1, 0, 0), (0, 1, 0), (0, 0, 10))\<rparr>,
          slice_thickness = [2, 3, 499999 / 100000], slice_index = [[], [], []]\<rparr>
   \<and> SliceIndexedAtoms_init
     \<lparr>atom_list = [(6, (0, 0, 1)), (6, (0, 0, 11))],
      cell = ((1, 0, 0), (0, 1, 0), (0, 0, 10))\<rparr>
     (Given (Sequence [2, 3, 5]))
   = Inr \<lparr>atoms = \<lparr>atom_list = [(6, (0, 0, 1)), (6, (0, 0, 11))],
                   cell = ((1, 0, 0), (0, 1, 0), (0, 0, 10))\<rparr>,
          slice_thickness = [2, 3, 5], slice_index = [[0], [], []]\<rparr>"
  by (simp add: init_defs)


text \<open>
  C3, amended. For a \<open>SliceIndexedAtoms\<close> built from a non-empty sequence of
  positive thicknesses, whose sum \<open>B\<close> is the last cumulative boundary (close to the
  box height, by validation): there is one bucket per slab; every atom index with
  \<open>z < B\<close> is in exactly one bucket, and once in it; every atom with \<open>z \<ge> B\<close> is
  in no bucket; so the union of the buckets is the set of the atom indices with
  \<open>z < B\<close>.
\<close>

theorem bucket_partition_below_last_boundary:
  assumes init: "SliceIndexedAtoms_init a arg = Inr self"
    and pos: "\<forall>t\<in>set (slice_thickness self). 0 < t"
    and ne: "slice_thickness self \<noteq> []"
  shows "length (slice_index self) = num_slices self
         \<and> isclose (sum_list (slice_thickness self)) (cell_zz (cell a))
         \<and> (\<forall>j<length (atom_list a).
               (positions_z a ! j < sum_list (slice_thickness self) \<longrightarrow>
                  (\<exists>!l. l < num_slices self \<and> j \<in> set (slice_index self ! l)))
               \<and> (sum_list (slice_thickness self) \<le> positions_z a ! j \<longrightarrow>
                  (\<forall>l<num_slices self. j \<notin> set (slice_index self ! l))))
         \<and> (\<forall>l<num_slices self. distinct (slice_index self ! l))
         \<and> (\<Union>l<num_slices self. set (slice_index self ! l))
             = {j. j < length (atom_list a)
                   \<and> positions_z a ! j < sum_list (slice_thickness self)}"
proof -
  let ?ts = "slice_thickness self"
  let ?bins = "cumsum ?ts"
  let ?N = "num_slices self"
  let ?label = "\<lambda>j. searchsorted_right ?bins (positions_z a ! j)"
  have srt: "sorted ?bins" by (rule sorted_cumsum [OF pos])
  have bne: "?bins \<noteq> []" using ne by (simp add: cumsum_eq_Nil)
  have top: "last ?bins = sum_list ?ts" by (rule last_cumsum [OF ne])
  have lenb: "length ?bins = ?N" by (simp add: length_cumsum num_slices_def)
  have mem: "j \<in> set (slice_index self ! l) \<longleftrightarrow> j < length (atom_list a) \<and> ?label j = l"
    if "l < ?N" for l j
    using bucket_membership [OF init srt that] by auto
  have below: "?label j < ?N" if "positions_z a ! j < sum_list ?ts" for j
    using searchsorted_right_below_top [OF bne, of "positions_z a ! j"] that top lenb by simp
  have above: "?label j = ?N" if "sum_list ?ts \<le> positions_z a ! j" for j
    using searchsorted_right_at_top [OF srt bne, of "positions_z a ! j"] that top lenb by simp
  have len: "length (slice_index self) = ?N" by (rule init_slice_index_length [OF init])
  have close: "isclose (sum_list ?ts) (cell_zz (cell a))"
    using SliceIndexedAtoms_init_Inr(2) [OF init] validate_slice_thickness_isclose by blast
  have part: "\<forall>j<length (atom_list a).
               (positions_z a ! j < sum_list ?ts \<longrightarrow>
                  (\<exists>!l. l < ?N \<and> j \<in> set (slice_index self ! l)))
               \<and> (sum_list ?ts \<le> positions_z a ! j \<longrightarrow>
                  (\<forall>l<?N. j \<notin> set (slice_index self ! l)))"
  proof (intro allI impI conjI)
    fix j assume j: "j < length (atom_list a)" and "positions_z a ! j < sum_list ?ts"
    then have "?label j < ?N" by (simp add: below)
    with j show "\<exists>!l. l < ?N \<and> j \<in> set (slice_index self ! l)"
      by (intro ex1I [of _ "?label j"]) (auto simp: mem)
  next
    fix j l assume "sum_list ?ts \<le> positions_z a ! j" and l: "l < ?N"
    then have "?label j = ?N" by (simp add: above)
    with l show "j \<notin> set (slice_index self ! l)" by (simp add: mem)
  qed
  have dist: "\<forall>l<?N. distinct (slice_index self ! l)"
    using SliceIndexedAtoms_init_Inr(3) [OF init]
    by (auto simp: distinct_label_to_index_nth)
  have union: "(\<Union>l<?N. set (slice_index self ! l))
             = {j. j < length (atom_list a) \<and> positions_z a ! j < sum_list ?ts}"
  proof (rule set_eqI)
    fix j
    show "j \<in> (\<Union>l<?N. set (slice_index self ! l))
          \<longleftrightarrow> j \<in> {j. j < length (atom_list a) \<and> positions_z a ! j < sum_list ?ts}"
    proof (cases "positions_z a ! j < sum_list ?ts")
      case True
      then show ?thesis using below [OF True] by (auto simp: mem)
    next
      case False
      then have "?label j = ?N" by (simp add: above)
      with False show ?thesis by (auto simp: mem)
    qed
  qed
  from len close part dist union show ?thesis by blast
qed

text \<open>
  An instance: box height 10, thicknesses 2, 3, 5, atoms at \<open>z = 1\<close> and
  \<open>z = 10\<close>.
\<close>

theorem bucket_partition_below_last_boundary_witness:
  "SliceIndexedAtoms_init
     \<lparr>atom_list = [(6, (0, 0, 1)), (6, (0, 0, 10))],
      cell = ((1, 0, 0), (0, 1, 0), (0, 0, 10))\<rparr>
     (Given (Sequence [2, 3, 5]))
   = Inr \<lparr>atoms = \<lparr>atom_list = [(6, (0, 0, 1)), (6, (0, 0, 10))],
                   cell = ((1, 0, 0), (0, 1, 0), (0, 0, 10))\<rparr>,
          slice_thickness = [2, 3, 5], slice_index = [[0], [], []]\<rparr>
   \<and> (\<Union>l<num_slices
          \<lparr>atoms = \<lparr>atom_list = [(6, (0, 0, 1)), (6, (0, 0, 10))],
                   cell = ((1, 0, 0), (0, 1, 0), (0, 0, 10))\<rparr>,
           slice_thickness = [2, 3, 5], slice_index = [[0], [], []]\<rparr>.
        set (slice_index
          \<lparr>atoms = \<lparr>atom_list = [(6, (0, 0, 1)), (6, (0, 0, 10))],
                   cell = ((1, 0, 0), (0, 1, 0), (0, 0, 10))\<rparr>,
           slice_thickness = [2, 3, 5], slice_index = [[0], [], []]\<rparr> ! l))
     = {j. j < length [(6 :: int, (0 :: real, 0 :: real, 1 :: real)), (6, (0, 0, 10))]
           \<and> positions_z \<lparr>atom_list = [(6, (0, 0, 1)), (6, (0, 0, 10))],
                 cell = ((1, 0, 0), (0, 1, 0), (0, 0, 10))\<rparr> ! j < sum_list [2, 3, 5]}"
proof -
  let ?a = "\<lparr>atom_list = [(6, (0, 0, 1)), (6, (0, 0, 10))],
             cell = ((1, 0, 0), (0, 1, 0), (0, 0, 10))\<rparr>"
  let ?self = "\<lparr>atoms = ?a, slice_thickness = [2, 3, 5], slice_index = [[0], [], []]\<rparr>"
  have init: "SliceIndexedAtoms_init ?a (Given (Sequence [2, 3, 5])) = Inr ?self"
    by (simp add: init_defs)
  have pos: "\<forall>t\<in>set (slice_thickness ?self). 0 < t" by simp
  have ne: "slice_thickness ?self \<noteq> []" by simp
  from bucket_partition_below_last_boundary [OF init pos ne]
  have "(\<Union>l<num_slices ?self. set (slice_index ?self ! l))
        = {j. j < length (atom_list ?a)
              \<and> positions_z ?a ! j < sum_list (slice_thickness ?self)}"
    by blast
  with init show ?thesis by simp
qed

subsection \<open>Range queries on \<open>SliceIndexedAtoms\<close>\<close>

lemma py_slice_all: "py_slice xs (Some 0) (Some (int (length xs))) = xs"
  by (simp add: py_slice_def py_bound_def)

lemma in_slice_single:
  assumes "i < length (slice_index self)"
  shows "in_slice self (int i) (int i + 1) = Inr (slice_index self ! i)"
  using assms by (simp add: in_slice_def py_index_def)

lemma in_slice_whole:
  assumes "slice_index self \<noteq> []"
  shows "in_slice self 0 (int (length (slice_index self))) = Inr (concat (slice_index self))"
proof (cases "length (slice_index self) < 2")
  case True
  with assms obtain b where "slice_index self = [b]"
    by (cases "slice_index self") (auto simp: less_Suc_eq numeral_2_eq_2)
  then show ?thesis by (simp add: in_slice_def py_index_def)
next
  case False
  then have "\<not> int (length (slice_index self)) - 0 < 2" by simp
  then show ?thesis
    using assms by (simp add: in_slice_def py_slice_all split: list.splits)
qed

lemma set_concat_nth: "set (concat xss) = (\<Union>i<length xss. set (xss ! i))"
proof -
  have "set xss = (\<lambda>i. xss ! i) ` {..<length xss}"
    by (auto simp: in_set_conv_nth image_iff)
  then have "\<Union> (set ` set xss) = (\<Union>i<length xss. set (xss ! i))"
    by (simp add: image_image)
  then show ?thesis by simp
qed

lemma SliceIndexedAtoms_query_atoms:
  assumes "SliceIndexedAtoms_get_atoms_in_slices self f last_arg None = Inr r"
  shows "\<exists>idx. in_slice self f (case last_arg of None \<Rightarrow> f | Some l \<Rightarrow> l) = Inr idx
           \<and> atom_list r
               = map (\<lambda>j. case atom_list (atoms self) ! j of
                            (n, (x, y, z)) \<Rightarrow>
                              (n, (x, y,
                                z - sum_list (py_slice (slice_thickness self) None (Some f)))))
                   idx"
  using assms
  by (auto simp: SliceIndexedAtoms_get_atoms_in_slices_def Let_def getitem_indices_def
        shift_z_def split: sum.splits if_splits)

lemma py_slice_empty: "py_slice xs (Some i) (Some i) = []"
  by (simp add: py_slice_def py_bound_def Let_def)

lemma py_slice_single:
  assumes "i < length xs"
  shows "py_slice xs (Some (int i)) (Some (int i + 1)) = [xs ! i]"
proof -
  have "py_bound (length xs) (Some (int i)) 0 = i"
    using assms by (simp add: py_bound_def)
  moreover have "py_bound (length xs) (Some (int i + 1)) (int (length xs)) = Suc i"
    using assms by (simp add: py_bound_def)
  moreover have "take (Suc i - i) (drop i xs) = [xs ! i]"
    using assms by (simp add: take_Suc_conv_app_nth)
  ultimately show ?thesis by (simp add: py_slice_def Let_def)
qed

lemma py_slice_prefix:
  "i \<le> length xs \<Longrightarrow> py_slice xs None (Some (int i)) = take i xs"
  by (simp add: py_slice_def py_bound_def)

lemma shift_z_zero: "shift_z a 0 = a"
proof -
  have "(\<lambda>(n :: int, (x :: real, y :: real, z :: real)). (n, (x, y, z - 0))) = id"
    by (auto simp: fun_eq_iff)
  then show ?thesis by (simp add: shift_z_def)
qed

lemma SliceIndexedAtoms_query_result:
  assumes sel: "in_slice self first_slice last_slice = Inr idx"
    and valid: "\<forall>j\<in>set idx. j < length (atom_list (atoms self))"
  shows "SliceIndexedAtoms_get_atoms_in_slices self first_slice (Some last_slice) None
         = Inr (shift_z
             \<lparr>atom_list = map (\<lambda>j. atom_list (atoms self) ! j) idx,
              cell = set_cell_zz (cell (atoms self))
                       (sum_list (py_slice (slice_thickness self)
                          (Some first_slice) (Some last_slice)))\<rparr>
             (sum_list (py_slice (slice_thickness self) None (Some first_slice))))"
proof -
  from valid have "list_all (\<lambda>j. j < length (atom_list (atoms self))) idx"
    by (simp add: list_all_iff)
  then have "getitem_indices (atoms self) idx
             = Inr ((atoms self)\<lparr>atom_list := map (\<lambda>j. atom_list (atoms self) ! j) idx\<rparr>)"
    by (simp add: getitem_indices_def)
  with sel show ?thesis
    by (cases "atoms self") (simp add: SliceIndexedAtoms_get_atoms_in_slices_def Let_def)
qed

lemma length_digitize:
  assumes "digitize x bins = Inr labels"
  shows "length labels = length x"
  using assms by (auto simp: digitize_def Let_def split: if_splits)

lemma init_slice_index_valid:
  assumes "SliceIndexedAtoms_init a arg = Inr self"
  shows "\<forall>b\<in>set (slice_index self). \<forall>j\<in>set b. j < length (atom_list (atoms self))"
proof -
  from SliceIndexedAtoms_init_Inr(3) [OF assms] obtain labels where
    dig: "digitize (positions_z a) (cumsum (slice_thickness self)) = Inr labels"
    and idx: "slice_index self = label_to_index labels (int (num_slices self) - 1)"
    by blast
  from length_digitize [OF dig] have "length labels = length (atom_list a)"
    by (simp add: length_positions_z)
  moreover have "atoms self = a" by (rule SliceIndexedAtoms_init_Inr(1) [OF assms])
  ultimately show ?thesis
    unfolding idx by (auto simp: label_to_index_def)
qed

text \<open>
  C4. For a \<open>SliceIndexedAtoms\<close> with one bucket per slab, every bucket holding
  indices of source atoms (both established by construction), and \<open>N > 0\<close> slabs:
  the query of the range \<open>(0, N)\<close> selects the concatenation of all buckets and
  returns exactly the source atoms at those indices; the query of \<open>(i, i + 1)\<close>
  selects bucket \<open>i\<close> and returns exactly the source atoms at its indices (re-based),
  for every \<open>i < N\<close>; and the set of indices of the former is the union of the sets
  of indices of the latter.
\<close>

theorem range_concatenation:
  assumes len: "length (slice_index self) = num_slices self"
    and valid: "\<forall>b\<in>set (slice_index self). \<forall>j\<in>set b. j < length (atom_list (atoms self))"
    and pos: "0 < num_slices self"
  shows "in_slice self 0 (int (num_slices self)) = Inr (concat (slice_index self))
         \<and> SliceIndexedAtoms_get_atoms_in_slices self 0 (Some (int (num_slices self))) None
             = Inr \<lparr>atom_list = map (\<lambda>j. atom_list (atoms self) ! j) (concat (slice_index self)),
                    cell = set_cell_zz (cell (atoms self)) (sum_list (slice_thickness self))\<rparr>
         \<and> (\<forall>i<num_slices self.
               in_slice self (int i) (int i + 1) = Inr (slice_index self ! i)
               \<and> SliceIndexedAtoms_get_atoms_in_slices self (int i) (Some (int i + 1)) None
                   = Inr \<lparr>atom_list =
                            map (\<lambda>j. case atom_list (atoms self) ! j of
                                       (n, (x, y, z)) \<Rightarrow>
                                         (n, (x, y, z - sum_list (take i (slice_thickness self)))))
                              (slice_index self ! i),
                          cell = set_cell_zz (cell (atoms self)) (slice_thickness self ! i)\<rparr>)
         \<and> set (concat (slice_index self)) = (\<Union>i<num_slices self. set (slice_index self ! i))"
proof (intro conjI allI impI)
  from len pos have ne: "slice_index self \<noteq> []" by auto
  from in_slice_whole [OF ne] len
  show whole: "in_slice self 0 (int (num_slices self)) = Inr (concat (slice_index self))"
    by simp
  have v: "\<forall>j\<in>set (concat (slice_index self)). j < length (atom_list (atoms self))"
    using valid by auto
  have all: "py_slice (slice_thickness self) (Some 0) (Some (int (num_slices self)))
             = slice_thickness self"
    unfolding num_slices_def by (rule py_slice_all)
  have none: "py_slice (slice_thickness self) None (Some 0) = []"
    using py_slice_prefix [of 0 "slice_thickness self"] by simp
  from SliceIndexedAtoms_query_result [OF whole v]
  show "SliceIndexedAtoms_get_atoms_in_slices self 0 (Some (int (num_slices self))) None
        = Inr \<lparr>atom_list = map (\<lambda>j. atom_list (atoms self) ! j) (concat (slice_index self)),
               cell = set_cell_zz (cell (atoms self)) (sum_list (slice_thickness self))\<rparr>"
    by (simp add: all none shift_z_zero)
next
  fix i assume i: "i < num_slices self"
  with len show single: "in_slice self (int i) (int i + 1) = Inr (slice_index self ! i)"
    by (simp add: in_slice_single)
  from i len have "slice_index self ! i \<in> set (slice_index self)" by simp
  with valid have v: "\<forall>j\<in>set (slice_index self ! i). j < length (atom_list (atoms self))"
    by blast
  have one: "py_slice (slice_thickness self) (Some (int i)) (Some (int i + 1))
             = [slice_thickness self ! i]"
    using i by (simp add: py_slice_single num_slices_def)
  have before: "py_slice (slice_thickness self) None (Some (int i))
                = take i (slice_thickness self)"
    using i by (simp add: py_slice_prefix num_slices_def)
  from SliceIndexedAtoms_query_result [OF single v]
  show "SliceIndexedAtoms_get_atoms_in_slices self (int i) (Some (int i + 1)) None
        = Inr \<lparr>atom_list =
                 map (\<lambda>j. case atom_list (atoms self) ! j of
                            (n, (x, y, z)) \<Rightarrow>
                              (n, (x, y, z - sum_list (take i (slice_thickness self)))))
                   (slice_index self ! i),
               cell = set_cell_zz (cell (atoms self)) (slice_thickness self ! i)\<rparr>"
    by (simp add: one before shift_z_def)
next
  show "set (concat (slice_index self)) = (\<Union>i<num_slices self. set (slice_index self ! i))"
    using len set_concat_nth [of "slice_index self"] by simp
qed

text \<open>
  An instance: box height 10, thicknesses 2, 3, 5, atoms at \<open>z = 1\<close>, \<open>z = 3\<close>
  and \<open>z = 10\<close>; the last atom is in no bucket and in no query result.
\<close>

theorem range_concatenation_witness:
  "SliceIndexedAtoms_init
     \<lparr>atom_list = [(6, (0, 0, 1)), (6, (0, 0, 3)), (6, (0, 0, 10))],
      cell = ((1, 0, 0), (0, 1, 0), (0, 0, 10))\<rparr>
     (Given (Sequence [2, 3, 5]))
   = Inr \<lparr>atoms = \<lparr>atom_list = [(6, (0, 0, 1)), (6, (0, 0, 3)), (6, (0, 0, 10))],
                   cell = ((1, 0, 0), (0, 1, 0), (0, 0, 10))\<rparr>,
          slice_thickness = [2, 3, 5], slice_index = [[0], [1], []]\<rparr>
   \<and> SliceIndexedAtoms_get_atoms_in_slices
       \<lparr>atoms = \<lparr>atom_list = [(6, (0, 0, 1)), (6, (0, 0, 3)), (6, (0, 0, 10))],
                 cell = ((1, 0, 0), (0, 1, 0), (0, 0, 10))\<rparr>,
        slice_thickness = [2, 3, 5], slice_index = [[0], [1], []]\<rparr> 0 (Some 3) None
     = Inr \<lparr>atom_list = [(6, (0, 0, 1)), (6, (0, 0, 3))],
            cell = ((1, 0, 0), (0, 1, 0), (0, 0, 10))\<rparr>
   \<and> SliceIndexedAtoms_get_atoms_in_slices
       \<lparr>atoms = \<lparr>atom_list = [(6, (0, 0, 1)), (6, (0, 0, 3)), (6, (0, 0, 10))],
                 cell = ((1, 0, 0), (0, 1, 0), (0, 0, 10))\<rparr>,
        slice_thickness = [2, 3, 5], slice_index = [[0], [1], []]\<rparr> 1 (Some 2) None
     = Inr \<lparr>atom_list = [(6, (0, 0, 1))], cell = ((1, 0, 0), (0, 1, 0), (0, 0, 3))\<rparr>"
proof -
  let ?a = "\<lparr>atom_list = [(6, (0, 0, 1)), (6, (0, 0, 3)), (6, (0, 0, 10))],
             cell = ((1, 0, 0), (0, 1, 0), (0, 0, 10))\<rparr>"
  let ?self = "\<lparr>atoms = ?a, slice_thickness = [2, 3, 5], slice_index = [[0], [1], []]\<rparr>"
  have init: "SliceIndexedAtoms_init ?a (Given (Sequence [2, 3, 5])) = Inr ?self"
    by (simp add: init_defs)
  have len: "length (slice_index ?self) = num_slices ?self" by (simp add: num_slices_def)
  have valid: "\<forall>b\<in>set (slice_index ?self). \<forall>j\<in>set b. j < length (atom_list (atoms ?self))"
    by simp
  have pos: "0 < num_slices ?self" by (simp add: num_slices_def)
  note c = range_concatenation [OF len valid pos]
  from c have "SliceIndexedAtoms_get_atoms_in_slices ?self 0 (Some (int (num_slices ?self))) None
      = Inr \<lparr>atom_list = map (\<lambda>j. atom_list (atoms ?self) ! j) (concat (slice_index ?self)),
             cell = set_cell_zz (cell (atoms ?self)) (sum_list (slice_thickness ?self))\<rparr>"
    by blast
  then have whole: "SliceIndexedAtoms_get_atoms_in_slices ?self 0 (Some 3) None
      = Inr \<lparr>atom_list = [(6, (0, 0, 1)), (6, (0, 0, 3))],
             cell = ((1, 0, 0), (0, 1, 0), (0, 0, 10))\<rparr>"
    by (simp add: num_slices_def set_cell_zz_def)
  from c have each: "\<forall>i<num_slices ?self.
      SliceIndexedAtoms_get_atoms_in_slices ?self (int i) (Some (int i + 1)) None
      = Inr \<lparr>atom_list =
               map (\<lambda>j. case atom_list (atoms ?self) ! j of
                          (n, (x, y, z)) \<Rightarrow>
                            (n, (x, y, z - sum_list (take i (slice_thickness ?self)))))
                 (slice_index ?self ! i),
             cell = set_cell_zz (cell (atoms ?self)) (slice_thickness ?self ! i)\<rparr>"
    by blast
  have lt: "(1 :: nat) < num_slices ?self" by (simp add: num_slices_def)
  from each lt have "SliceIndexedAtoms_get_atoms_in_slices ?self (int 1) (Some (int 1 + 1)) None
      = Inr \<lparr>atom_list =
               map (\<lambda>j. case atom_list (atoms ?self) ! j of
                          (n, (x, y, z)) \<Rightarrow>
                            (n, (x, y, z - sum_list (take 1 (slice_thickness ?self)))))
                 (slice_index ?self ! 1),
             cell = set_cell_zz (cell (atoms ?self)) (slice_thickness ?self ! 1)\<rparr>"
    by blast
  then have one: "SliceIndexedAtoms_get_atoms_in_slices ?self 1 (Some 2) None
      = Inr \<lparr>atom_list = [(6, (0, 0, 1))], cell = ((1, 0, 0), (0, 1, 0), (0, 0, 3))\<rparr>"
    by (simp add: set_cell_zz_def)
  from init whole one show ?thesis by simp
qed

subsection \<open>Box extent of a single-slab query\<close>

lemma cell_zz_set_cell_zz: "cell_zz (set_cell_zz c v) = v"
  by (simp add: cell_zz_def set_cell_zz_def cell_diag_def z_of_def split: prod.splits)

lemma cell_shift_z: "cell (shift_z a s) = cell a"
  by (simp add: shift_z_def)

lemma SliceIndexedAtoms_query_extent:
  assumes "SliceIndexedAtoms_get_atoms_in_slices self first_slice last_arg an = Inr r"
  shows "cell_zz (cell r)
         = sum_list (py_slice (slice_thickness self) (Some first_slice)
             (Some (case last_arg of None \<Rightarrow> first_slice | Some l \<Rightarrow> l)))"
  using assms
  by (auto simp: SliceIndexedAtoms_get_atoms_in_slices_def Let_def cell_shift_z
        cell_zz_set_cell_zz split: sum.splits)

lemma default_single_query_zero_extent:
  assumes "SliceIndexedAtoms_get_atoms_in_slices self i None an = Inr r"
  shows "cell_zz (cell r) = 0"
  using SliceIndexedAtoms_query_extent [OF assms] by (simp add: py_slice_empty)

lemma explicit_single_query_extent:
  assumes "SliceIndexedAtoms_get_atoms_in_slices self (int i) (Some (int i + 1)) an = Inr r"
    and "i < num_slices self"
  shows "cell_zz (cell r) = slice_thickness self ! i"
  using SliceIndexedAtoms_query_extent [OF assms(1)] assms(2)
  by (simp add: py_slice_single num_slices_def)

lemma searchsorted_right_nth_le:
  assumes srt: "sorted a" and i: "i < searchsorted_right a v"
  shows "a ! i \<le> v"
proof (rule ccontr)
  assume "\<not> a ! i \<le> v"
  then have gt: "v < a ! i" by simp
  from i searchsorted_right_le [of a v] have len: "i < length a" by simp
  have "\<forall>b\<in>set (drop i a). \<not> b \<le> v"
  proof
    fix b assume "b \<in> set (drop i a)"
    then obtain k where "k < length a - i" and "b = a ! (i + k)"
      by (auto simp: in_set_conv_nth)
    with srt have "a ! i \<le> b" by (simp add: sorted_iff_nth_mono)
    with gt show "\<not> b \<le> v" by simp
  qed
  then have "filter (\<lambda>b. b \<le> v) (drop i a) = []"
    by (simp add: filter_empty_conv)
  moreover have "filter (\<lambda>b. b \<le> v) a
                 = filter (\<lambda>b. b \<le> v) (take i a) @ filter (\<lambda>b. b \<le> v) (drop i a)"
    by (simp flip: filter_append)
  ultimately have "searchsorted_right a v = length (filter (\<lambda>b. b \<le> v) (take i a))"
    by (simp add: searchsorted_right_def)
  also have "\<dots> \<le> length (take i a)" by (rule length_filter_le)
  also have "\<dots> \<le> i" by simp
  finally show False using i by simp
qed

text \<open>
  The re-basing of a single-slab query, with the last slice left out or given as
  \<open>i + 1\<close>: the returned atoms have local \<open>z \<ge> 0\<close>, provided no source atom
  lies below the box.
\<close>

lemma single_slab_local_z_nonneg:
  assumes init: "SliceIndexedAtoms_init a arg = Inr self"
    and pos: "\<forall>t\<in>set (slice_thickness self). 0 < t"
    and i: "i < num_slices self"
    and last: "last_arg = None \<or> last_arg = Some (int i + 1)"
    and src: "\<forall>z\<in>set (positions_z a). 0 \<le> z"
    and q: "SliceIndexedAtoms_get_atoms_in_slices self (int i) last_arg None = Inr r"
  shows "\<forall>atm\<in>set (atom_list r). 0 \<le> z_of (snd atm)"
proof -
  let ?ts = "slice_thickness self"
  let ?bins = "cumsum ?ts"
  let ?shift = "sum_list (py_slice ?ts None (Some (int i)))"
  have srt: "sorted ?bins" by (rule sorted_cumsum [OF pos])
  have a: "atoms self = a" by (rule SliceIndexedAtoms_init_Inr(1) [OF init])
  have len: "length (slice_index self) = num_slices self"
    by (rule init_slice_index_length [OF init])
  from last have diff: "(case last_arg of None \<Rightarrow> int i | Some l \<Rightarrow> l) - int i < 2"
    by auto
  from SliceIndexedAtoms_query_atoms [OF q] obtain idx where
    sel: "in_slice self (int i) (case last_arg of None \<Rightarrow> int i | Some l \<Rightarrow> l) = Inr idx"
    and atoms_r: "atom_list r
       = map (\<lambda>j. case atom_list (atoms self) ! j of
                    (n, (x, y, z)) \<Rightarrow> (n, (x, y, z - ?shift))) idx"
    by blast
  from sel diff i len have idx: "idx = slice_index self ! i"
    by (simp add: in_slice_def py_index_def)
  have shift: "?shift = sum_list (take i ?ts)"
    using i by (simp add: py_slice_prefix num_slices_def)
  show ?thesis
  proof
    fix atm assume "atm \<in> set (atom_list r)"
    then obtain j where j: "j \<in> set (slice_index self ! i)"
      and atm: "atm = (case atom_list a ! j of (n, (x, y, z)) \<Rightarrow> (n, (x, y, z - ?shift)))"
      unfolding atoms_r idx a by auto
    from j bucket_membership [OF init srt i]
    have jlen: "j < length (atom_list a)"
      and label: "searchsorted_right ?bins (positions_z a ! j) = i"
      by auto
    have zj: "positions_z a ! j = z_of (snd (atom_list a ! j))"
      using jlen by (simp add: positions_z_def positions_def)
    have local: "z_of (snd atm) = positions_z a ! j - ?shift"
      unfolding atm zj by (simp add: z_of_def split: prod.splits)
    have "?shift \<le> positions_z a ! j"
    proof (cases i)
      case 0
      from jlen have "positions_z a ! j \<in> set (positions_z a)"
        by (simp add: length_positions_z)
      with src 0 shift show ?thesis by simp
    next
      case (Suc k)
      have "k < searchsorted_right ?bins (positions_z a ! j)"
        using label Suc by simp
      from searchsorted_right_nth_le [OF srt this]
      have "?bins ! k \<le> positions_z a ! j" .
      moreover have "?bins ! k = sum_list (take i ?ts)"
        using i Suc by (simp add: cumsum_nth num_slices_def)
      ultimately show ?thesis using shift by simp
    qed
    with local show "0 \<le> z_of (snd atm)" by simp
  qed
qed

text \<open>
  C2 at a concrete structure: box height 10, thicknesses 2, 3, 5, atoms at
  \<open>z = 1\<close> and \<open>z = 3\<close>. The query of slab 1 with the last slice left to its
  default returns the atom of slab 1 re-based to local \<open>z = 1\<close>, in a box of
  z-extent 0, where the thickness of slab 1 is 3: the thicknesses of the range are
  taken from the empty slice \<^verbatim>\<open>[first_slice:first_slice]\<close>. The same query with
  the last slice given as 2 returns a box of z-extent 3.
\<close>

theorem default_single_slab_query_wrong_extent:
  "SliceIndexedAtoms_init
     \<lparr>atom_list = [(6, (0, 0, 1)), (6, (0, 0, 3))],
      cell = ((1, 0, 0), (0, 1, 0), (0, 0, 10))\<rparr>
     (Given (Sequence [2, 3, 5]))
   = Inr \<lparr>atoms = \<lparr>atom_list = [(6, (0, 0, 1)), (6, (0, 0, 3))],
                   cell = ((1, 0, 0), (0, 1, 0), (0, 0, 10))\<rparr>,
          slice_thickness = [2, 3, 5], slice_index = [[0], [1], []]\<rparr>
   \<and> SliceIndexedAtoms_get_atoms_in_slices
       \<lparr>atoms = \<lparr>atom_list = [(6, (0, 0, 1)), (6, (0, 0, 3))],
                 cell = ((1, 0, 0), (0, 1, 0), (0, 0, 10))\<rparr>,
        slice_thickness = [2, 3, 5], slice_index = [[0], [1], []]\<rparr> 1 None None
     = Inr \<lparr>atom_list = [(6, (0, 0, 1))], cell = ((1, 0, 0), (0, 1, 0), (0, 0, 0))\<rparr>
   \<and> SliceIndexedAtoms_get_atoms_in_slices
       \<lparr>atoms = \<lparr>atom_list = [(6, (0, 0, 1)), (6, (0, 0, 3))],
                 cell = ((1, 0, 0), (0, 1, 0), (0, 0, 10))\<rparr>,
        slice_thickness = [2, 3, 5], slice_index = [[0], [1], []]\<rparr> 1 (Some 2) None
     = Inr \<lparr>atom_list = [(6, (0, 0, 1))], cell = ((1, 0, 0), (0, 1, 0), (0, 0, 3))\<rparr>"
  by (simp add: init_defs SliceIndexedAtoms_get_atoms_in_slices_def in_slice_def py_index_def
        py_slice_def py_bound_def getitem_indices_def shift_z_def)

subsection \<open>The assertion of the plane-detection heuristic\<close>

text \<open>
  C7 at a concrete structure: one atom at \<open>z = 1\<close> in an orthogonal cell of height
  10.1, with the default tolerance 0.2. The plane positions are 0.1, 1.1 and 10.1, the
  thicknesses 1 and 9 sum to 10, which is not close to 10.1, and the assertion fails.
\<close>

theorem crystal_slice_thicknesses_assertion_fails:
  "crystal_slice_thicknesses
     \<lparr>atom_list = [(6, (0, 0, 1))], cell = ((1, 0, 0), (0, 1, 0), (0, 0, 101 / 10))\<rparr> (1 / 5)
   = Inl AssertionError"
  by (simp add: crystal_slice_thicknesses_def np_insert_ends_def atoms_defs isclose_def Let_def)

subsection \<open>Range queries on \<open>SlicedAtoms\<close>\<close>

lemma filter_zip_map: "map fst (filter snd (zip xs (map P xs))) = filter P xs"
  by (induction xs) simp_all

lemma map2_conj_map: "map2 (\<and>) (map Q xs) (map P xs) = map (\<lambda>x. Q x \<and> P x) xs"
  by (induction xs) simp_all

lemma getitem_mask_pred:
  "getitem_mask a (map P (atom_list a)) = a\<lparr>atom_list := filter P (atom_list a)\<rparr>"
  by (simp add: getitem_mask_def filter_zip_map)

lemma py_index_in_range:
  "0 \<le> i \<Longrightarrow> i < int (length xs) \<Longrightarrow> py_index xs i = Inr (xs ! nat i)"
  by (simp add: py_index_def)

text \<open>
  C8. A range query on a \<open>SlicedAtoms\<close>, with \<open>a\<close> the entry boundary of the
  first slab and \<open>b\<close> the exit boundary of the last slab (the first slab again when
  the last is not given), returns exactly the atoms of the source, in their order and
  with their positions unchanged, whose z-coordinate lies in
  \<open>[a - z_padding, b + z_padding)\<close> (and whose atomic number is the requested one, if
  one is requested), in the diagonal box of the source's x and y extents and z-extent
  \<open>b - a\<close>, whatever the paddings.
\<close>

theorem range_query_membership:
  assumes first: "0 \<le> first_slice" "first_slice < int (num_slices self)"
    and last: "0 \<le> last_slice" "last_slice < int (num_slices self)"
    and l: "last_slice = (case last_arg of None \<Rightarrow> first_slice | Some l \<Rightarrow> l)"
    and a: "a = fst (slice_limits (slice_thickness self) ! nat first_slice)"
    and b: "b = snd (slice_limits (slice_thickness self) ! nat last_slice)"
  shows "SlicedAtoms_get_atoms_in_slices self first_slice last_arg atomic_number
         = Inr \<lparr>atom_list =
                  filter (\<lambda>atm. (case atomic_number of None \<Rightarrow> True | Some an \<Rightarrow> fst atm = an)
                               \<and> z_of (snd atm) \<ge> a - z_padding self
                               \<and> z_of (snd atm) < b + z_padding self)
                    (atom_list (atoms self)),
                cell = diag_cell (fst (box self), fst (snd (box self)), b - a)\<rparr>"
proof -
  let ?lim = "slice_limits (slice_thickness self)"
  have len: "length ?lim = num_slices self"
    by (simp add: length_slice_limits num_slices_def)
  have pa: "py_index ?lim first_slice = Inr (a, snd (?lim ! nat first_slice))"
    using first len a by (simp add: py_index_in_range)
  have pb: "py_index ?lim last_slice = Inr (fst (?lim ! nat last_slice), b)"
    using last len b by (simp add: py_index_in_range)
  let ?inr = "\<lambda>atm. z_of (snd atm) \<ge> a - z_padding self \<and> z_of (snd atm) < b + z_padding self"
  have in_range: "map (\<lambda>z. z \<ge> a - z_padding self \<and> z < b + z_padding self)
                     (positions_z (atoms self)) = map ?inr (atom_list (atoms self))"
    by (simp add: positions_z_def positions_def)
  have nums: "map (\<lambda>n. n = an) (numbers (atoms self))
              = map (\<lambda>atm. fst atm = an) (atom_list (atoms self))" for an
    by (simp add: numbers_def)
  show ?thesis
  proof (cases atomic_number)
    case None
    then show ?thesis
      using l pa pb
      by (simp add: SlicedAtoms_get_atoms_in_slices_def Let_def in_range getitem_mask_pred
            box_def cell_diag_def split: prod.splits)
  next
    case (Some an)
    then show ?thesis
      using l pa pb
      by (simp add: SlicedAtoms_get_atoms_in_slices_def Let_def in_range nums map2_conj_map
            getitem_mask_pred box_def cell_diag_def split: prod.splits)
  qed
qed

text \<open>
  An instance: thicknesses 2, 3, 5, \<open>z_padding = 1\<close>, slab 1: the atoms with
  \<open>z\<close> in \<open>[1, 6)\<close>, in a box of z-extent 3.
\<close>

theorem range_query_membership_witness:
  "SlicedAtoms_get_atoms_in_slices
     \<lparr>atoms = \<lparr>atom_list = [(6, (0, 0, 1)), (14, (1, 2, 5 / 2)), (6, (3, 3, 6))],
               cell = ((4, 0, 0), (0, 4, 0), (0, 0, 10))\<rparr>,
      slice_thickness = [2, 3, 5], xy_padding = 0, z_padding = 1\<rparr> 1 None None
   = Inr \<lparr>atom_list = [(6, (0, 0, 1)), (14, (1, 2, 5 / 2))],
          cell = ((4, 0, 0), (0, 4, 0), (0, 0, 3))\<rparr>"
proof -
  let ?self = "\<lparr>atoms = \<lparr>atom_list = [(6, (0, 0, 1)), (14, (1, 2, 5 / 2)), (6, (3, 3, 6))],
               cell = ((4, 0, 0), (0, 4, 0), (0, 0, 10))\<rparr>,
      slice_thickness = [2, 3, 5], xy_padding = 0, z_padding = 1\<rparr>"
  have lim: "slice_limits [2, 3, 5] = [(0, 2), (2, 5), (5, 10)]"
    by (simp add: slice_limits_def accumulate_def upt_rec)
  have f: "(0::int) \<le> 1" "(1::int) < int (num_slices ?self)"
    by (simp_all add: num_slices_def)
  have l: "(1::int) = (case None of None \<Rightarrow> 1 | Some l \<Rightarrow> l)" by simp
  have a: "(2::real) = fst (slice_limits (slice_thickness ?self) ! nat 1)"
    by (simp add: lim)
  have b: "(5::real) = snd (slice_limits (slice_thickness ?self) ! nat 1)"
    by (simp add: lim)
  from range_query_membership [OF f f l a b, of None]
  show ?thesis by (simp add: z_of_def box_def cell_diag_def diag_cell_def)
qed

subsection \<open>The transverse padding\<close>

lemma xy_padding_unread:
  "SlicedAtoms_get_atoms_in_slices (self\<lparr>xy_padding := p\<rparr>) f l an
   = SlicedAtoms_get_atoms_in_slices self f l an"
  by (simp add: SlicedAtoms_get_atoms_in_slices_def Let_def
        cong: sum.case_cong prod.case_cong option.case_cong)

lemma init_query_xy_independent:
  "(case SlicedAtoms_init a arg p1 zp of Inl e \<Rightarrow> Inl e
    | Inr s \<Rightarrow> SlicedAtoms_get_atoms_in_slices s f l an)
   = (case SlicedAtoms_init a arg p2 zp of Inl e \<Rightarrow> Inl e
      | Inr s \<Rightarrow> SlicedAtoms_get_atoms_in_slices s f l an)"
proof (cases "BaseSlicedAtoms_init a arg")
  case (Inl e)
  then show ?thesis by (simp add: SlicedAtoms_init_def)
next
  case (Inr base)
  have "\<lparr>atoms = atoms base, slice_thickness = slice_thickness base,
          xy_padding = p1, z_padding = zp\<rparr>
        = \<lparr>atoms = atoms base, slice_thickness = slice_thickness base,
          xy_padding = p2, z_padding = zp\<rparr>\<lparr>xy_padding := p1\<rparr>"
    by simp
  with Inr show ?thesis
    by (simp only: SlicedAtoms_init_def sum.case xy_padding_unread)
qed

text \<open>
  Whatever the structure, the range and the two transverse paddings, the results of
  the query do not differ.
\<close>

lemma xy_padding_never_changes_query:
  "\<not> (\<exists>a arg zp p1 p2 f l an. 0 \<le> p1 \<and> 0 \<le> p2 \<and> p1 \<noteq> p2
        \<and> (case SlicedAtoms_init a arg p1 zp of Inl e \<Rightarrow> Inl e
            | Inr s \<Rightarrow> SlicedAtoms_get_atoms_in_slices s f l an)
          \<noteq> (case SlicedAtoms_init a arg p2 zp of Inl e \<Rightarrow> Inl e
              | Inr s \<Rightarrow> SlicedAtoms_get_atoms_in_slices s f l an))"
  using init_query_xy_independent by blast

text \<open>
  C9 at a concrete structure: a cell of 4 by 4 by 10, thicknesses 2, 3, 5, one atom
  inside the cell and one at \<open>x = y = 9\<close>, five units outside it in the transverse
  plane. The class documents \<^verbatim>\<open>xy_padding\<close> as the padding of the atoms in x and
  y included in each slice, and the constructor stores it; the query of slab 0 returns
  the same two atoms with transverse padding 0 and with transverse padding 7, since
  it never reads the stored value.
\<close>

theorem xy_padding_has_no_effect:
  "SlicedAtoms_init
     \<lparr>atom_list = [(6, (0, 0, 1)), (14, (9, 9, 1))],
      cell = ((4, 0, 0), (0, 4, 0), (0, 0, 10))\<rparr> (Given (Sequence [2, 3, 5])) 0 0
   = Inr \<lparr>atoms = \<lparr>atom_list = [(6, (0, 0, 1)), (14, (9, 9, 1))],
                   cell = ((4, 0, 0), (0, 4, 0), (0, 0, 10))\<rparr>,
          slice_thickness = [2, 3, 5], xy_padding = 0, z_padding = 0\<rparr>
   \<and> SlicedAtoms_init
     \<lparr>atom_list = [(6, (0, 0, 1)), (14, (9, 9, 1))],
      cell = ((4, 0, 0), (0, 4, 0), (0, 0, 10))\<rparr> (Given (Sequence [2, 3, 5])) 7 0
   = Inr \<lparr>atoms = \<lparr>atom_list = [(6, (0, 0, 1)), (14, (9, 9, 1))],
                   cell = ((4, 0, 0), (0, 4, 0), (0, 0, 10))\<rparr>,
          slice_thickness = [2, 3, 5], xy_padding = 7, z_padding = 0\<rparr>
   \<and> SlicedAtoms_get_atoms_in_slices
       \<lparr>atoms = \<lparr>atom_list = [(6, (0, 0, 1)), (14, (9, 9, 1))],
                 cell = ((4, 0, 0), (0, 4, 0), (0, 0, 10))\<rparr>,
        slice_thickness = [2, 3, 5], xy_padding = 0, z_padding = 0\<rparr> 0 None None
     = Inr \<lparr>atom_list = [(6, (0, 0, 1)), (14, (9, 9, 1))],
            cell = ((4, 0, 0), (0, 4, 0), (0, 0, 2))\<rparr>
   \<and> SlicedAtoms_get_atoms_in_slices
       \<lparr>atoms = \<lparr>atom_list = [(6, (0, 0, 1)), (14, (9, 9, 1))],
                 cell = ((4, 0, 0), (0, 4, 0), (0, 0, 10))\<rparr>,
        slice_thickness = [2, 3, 5], xy_padding = 7, z_padding = 0\<rparr> 0 None None
     = Inr \<lparr>atom_list = [(6, (0, 0, 1)), (14, (9, 9, 1))],
            cell = ((4, 0, 0), (0, 4, 0), (0, 0, 2))\<rparr>"
  by (simp add: SlicedAtoms_init_def BaseSlicedAtoms_init_def validate_slice_thickness_def
        resolve_slice_thickness_def isclose_def atoms_defs SlicedAtoms_get_atoms_in_slices_def
        slice_limits_def accumulate_def py_index_def getitem_mask_def upt_rec Let_def)

end
